theory Spec2Isabelle
  imports Main "HOL-Library.Mapping" "HOL-Library.AList_Mapping"
begin

section \<open>The config linter (package linter) and its callers\<close>

text \<open>
  A shallow embedding of the Go package \<open>linter\<close> (\<open>LintBytes\<close>, \<open>parseConfig\<close>,
  \<open>parseKeyValue\<close>, the three validators and their helpers) and of the fatal
  determination of its two callers (\<open>lintOne\<close> of the command line tool and
  \<open>handleLint\<close> of the HTTP server).

  A Go \<open>string\<close> is a sequence of bytes: it is a \<open>char list\<close> here, one \<open>char\<close> per byte.
  A Go \<open>int\<close> is an \<open>int\<close>: the only arithmetic on it is the line counter, which is bounded
  by the length of the input. A Go \<open>map[string]fieldInfo\<close> is a
  \<open>(string, fieldInfo) mapping\<close>; \<open>len(m) == 0\<close> is \<open>Mapping.is_empty m\<close>, for a nil map as for
  an empty one (the only store into \<open>currentFeature.Fields\<close> comes after the test
  \<open>len(currentFeature.Fields) == 0\<close>, which replaces a nil map by a fresh one).
\<close>

subsection \<open>Functions of the Go standard library used by the package\<close>

text \<open>
  \<open>unicode.IsSpace\<close> holds of the six ASCII characters tab, line feed, vertical tab, form
  feed, carriage return and space, of U+0085 and U+00A0, and of the runes U+1680,
  U+2000 to U+200A, U+2028, U+2029, U+202F, U+205F and U+3000. The table lists their
  UTF-8 encodings. \<open>strings.TrimSpace\<close> decodes runes from the left and then from the right
  and removes them while they are white space; a byte sequence that is not one of these
  encodings decodes to a rune that is not white space (an ill-formed one to U+FFFD), so
  the result is what is left after removing these encodings from both ends.
\<close>

definition whiteSpace :: "string list" where
  "whiteSpace =
    [[CHR 0x09], [CHR 0x0A], [CHR 0x0B], [CHR 0x0C], [CHR 0x0D], [CHR 0x20],
     [CHR 0xC2, CHR 0x85], [CHR 0xC2, CHR 0xA0],
     [CHR 0xE1, CHR 0x9A, CHR 0x80],
     [CHR 0xE2, CHR 0x80, CHR 0x80], [CHR 0xE2, CHR 0x80, CHR 0x81],
     [CHR 0xE2, CHR 0x80, CHR 0x82], [CHR 0xE2, CHR 0x80, CHR 0x83],
     [CHR 0xE2, CHR 0x80, CHR 0x84], [CHR 0xE2, CHR 0x80, CHR 0x85],
     [CHR 0xE2, CHR 0x80, CHR 0x86], [CHR 0xE2, CHR 0x80, CHR 0x87],
     [CHR 0xE2, CHR 0x80, CHR 0x88], [CHR 0xE2, CHR 0x80, CHR 0x89],
     [CHR 0xE2, CHR 0x80, CHR 0x8A],
     [CHR 0xE2, CHR 0x80, CHR 0xA8], [CHR 0xE2, CHR 0x80, CHR 0xA9],
     [CHR 0xE2, CHR 0x80, CHR 0xAF], [CHR 0xE2, CHR 0x81, CHR 0x9F],
     [CHR 0xE3, CHR 0x80, CHR 0x80]]"

definition HasPrefix :: "string \<Rightarrow> string \<Rightarrow> bool" where
  "HasPrefix s p = (take (length p) s = p)"

definition HasSuffix :: "string \<Rightarrow> string \<Rightarrow> bool" where
  "HasSuffix s p = (length p \<le> length s \<and> drop (length s - length p) s = p)"

definition TrimPrefix :: "string \<Rightarrow> string \<Rightarrow> string" where
  "TrimPrefix s p = (if HasPrefix s p then drop (length p) s else s)"

definition TrimSuffix :: "string \<Rightarrow> string \<Rightarrow> string" where
  "TrimSuffix s p = (if HasSuffix s p then take (length s - length p) s else s)"

text \<open>Removes from the front of the string every leading occurrence of a sequence of the table.\<close>

fun trimLeading :: "string list \<Rightarrow> string \<Rightarrow> string" where
  "trimLeading tbl [] = []"
| "trimLeading tbl (c # cs) =
     (case find (HasPrefix (c # cs)) tbl of
        None \<Rightarrow> c # cs
      | Some p \<Rightarrow> trimLeading tbl (drop (length p - 1) cs))"

definition TrimSpace :: "string \<Rightarrow> string" where
  "TrimSpace s = rev (trimLeading (map rev whiteSpace) (rev (trimLeading whiteSpace s)))"

text \<open>\<open>strings.Trim(s, cutset)\<close> for a cutset of ASCII characters works on bytes.\<close>

definition Trim :: "string \<Rightarrow> string \<Rightarrow> string" where
  "Trim s cutset =
     rev (dropWhile (\<lambda>c. c \<in> set cutset) (rev (dropWhile (\<lambda>c. c \<in> set cutset) s)))"

text \<open>\<open>strings.Index(s, ":")\<close>: the position of the first occurrence of a byte, \<open>None\<close> for -1.\<close>

fun IndexByte :: "string \<Rightarrow> char \<Rightarrow> nat option" where
  "IndexByte [] c = None"
| "IndexByte (x # xs) c = (if x = c then Some 0 else map_option Suc (IndexByte xs c))"

text \<open>
  \<open>strings.ToLower\<close> on the ASCII letters. Go maps a rune beyond ASCII through
  \<open>unicode.ToLower\<close>; here such bytes stay as they are. No rune beyond ASCII has a lower
  case among the letters of \<open>true\<close> and \<open>false\<close>, the only strings \<open>ToLower\<close>'s result is
  compared with.
\<close>

definition toLowerByte :: "char \<Rightarrow> char" where
  "toLowerByte c =
     (case map_of (zip ''ABCDEFGHIJKLMNOPQRSTUVWXYZ'' ''abcdefghijklmnopqrstuvwxyz'') c of
        None \<Rightarrow> c | Some l \<Rightarrow> l)"

definition ToLower :: "string \<Rightarrow> string" where
  "ToLower s = map toLowerByte s"

fun Join :: "string list \<Rightarrow> string \<Rightarrow> string" where
  "Join [] sep = []"
| "Join [x] sep = x"
| "Join (x # y # ys) sep = x @ sep @ Join (y # ys) sep"

text \<open>
  \<open>strconv.Atoi\<close> on a platform whose \<open>int\<close> has 64 bits: an optional sign, then one or
  more decimal digits and nothing else, and the value must fit the type; \<open>None\<close> is a
  syntax or range error.
\<close>

definition isDigit :: "char \<Rightarrow> bool" where
  "isDigit c = (c \<in> set ''0123456789'')"

definition digitVal :: "char \<Rightarrow> int" where
  "digitVal c = int (length (takeWhile (\<lambda>d. d \<noteq> c) ''0123456789''))"

definition decimal :: "string \<Rightarrow> int" where
  "decimal ds = foldl (\<lambda>n ch. n * 10 + digitVal ch) 0 ds"

definition Atoi :: "string \<Rightarrow> int option" where
  "Atoi s =
     (let neg = HasPrefix s ''-'';
          ds = (if HasPrefix s ''-'' \<or> HasPrefix s ''+'' then drop 1 s else s);
          n = (if neg then - decimal ds else decimal ds)
      in if s = [] \<or> ds = [] \<or> \<not> list_all isDigit ds then None
         else if n < - (2 ^ 63) \<or> 2 ^ 63 - 1 < n then None
         else Some n)"

text \<open>\<open>fmt.Sprintf("%d", n)\<close> for a number that is not negative.\<close>

function digits :: "nat \<Rightarrow> string" where
  "digits n =
     (if n < 10 then [''0123456789'' ! n]
      else digits (n div 10) @ [''0123456789'' ! (n mod 10)])"
  by pat_completeness auto
termination
  by (relation "measure id") auto

declare digits.simps [simp del]

definition formatInt :: "int \<Rightarrow> string" where
  "formatInt n = digits (nat n)"

text \<open>
  \<open>fmt.Sprintf("%q", s)\<close>, which is \<open>strconv.Quote\<close>: the string between double quotes,
  a double quote and a backslash escaped by a backslash. Go also escapes control
  characters, bytes that are not valid UTF-8 and runes that are not printable; those
  bytes stay as they are here, so the rendering is Go's for printable text only. The
  function only renders the value inside one message of \<open>validateMetadata\<close>.
\<close>

definition Quote :: "string \<Rightarrow> string" where
  "Quote s =
     [CHR 0x22] @
     concat (map (\<lambda>c. if c = CHR 0x22 \<or> c = CHR 0x5C then [CHR 0x5C, c] else [c]) s) @
     [CHR 0x22]"

text \<open>
  \<open>bufio.Scanner\<close> with its default split function \<open>ScanLines\<close> over an in-memory reader.
  The input is cut at each line feed; a last piece with no line feed after it is a line
  when it is not empty. The scanner's buffer grows to \<open>MaxScanTokenSize\<close> bytes and must
  hold a line together with its line feed, so a line of \<open>MaxScanTokenSize\<close> bytes or
  more stops the scan with \<open>ErrTooLong\<close>; the lines before it have been delivered. Each
  delivered line loses one trailing carriage return (\<open>dropCR\<close>).
\<close>

datatype error = ErrTooLong

definition MaxScanTokenSize :: int where
  "MaxScanTokenSize = 64 * 1024"

text \<open>The builtin \<open>len\<close>, whose result is an \<open>int\<close>.\<close>

fun len :: "'a list \<Rightarrow> int" where
  "len [] = 0"
| "len (x # xs) = len xs + 1"

fun splitLines :: "string \<Rightarrow> string \<Rightarrow> string list" where
  "splitLines cur [] = (if cur = [] then [] else [rev cur])"
| "splitLines cur (c # cs) =
     (if c = CHR 0x0A then rev cur # splitLines [] cs else splitLines (c # cur) cs)"

definition dropCR :: "string \<Rightarrow> string" where
  "dropCR data = (if data \<noteq> [] \<and> last data = CHR 0x0D then butlast data else data)"

definition scanLines :: "string \<Rightarrow> string list \<times> error option" where
  "scanLines data =
     (let raw = splitLines [] data;
          ok = takeWhile (\<lambda>l. len l < MaxScanTokenSize) raw
      in (map dropCR ok, if length ok < length raw then Some ErrTooLong else None))"

subsection \<open>The data model\<close>

type_synonym Severity = string

definition SeverityError :: Severity where
  "SeverityError = ''error''"

definition SeverityWarning :: Severity where
  "SeverityWarning = ''warn''"

definition defaultTimeout :: int where
  "defaultTimeout = 30"

definition allowedEnvironments :: "string list" where
  "allowedEnvironments = [''dev'', ''staging'', ''prod'']"

record Issue =
  Line :: int
  Severity :: Severity
  Message :: string
  SuggestedFix :: string

text \<open>
  The field \<open>Line\<close> of \<open>fieldInfo\<close> is \<open>FieldLine\<close> and that of \<open>featureEntry\<close> is
  \<open>EntryLine\<close>: a field name belongs to one record type.
\<close>

record fieldInfo =
  Value :: string
  FieldLine :: int

record featureEntry =
  Fields :: "(string, fieldInfo) mapping"
  EntryLine :: int

record parsedConfig =
  Metadata :: "(string, fieldInfo) mapping"
  MetadataLine :: int
  Settings :: "(string, fieldInfo) mapping"
  SettingsLine :: int
  Features :: "featureEntry list"
  FeaturesLine :: int

subsection \<open>parseKeyValue and parseConfig\<close>

definition parseKeyValue :: "string \<Rightarrow> string \<times> string \<times> bool" where
  "parseKeyValue line =
     (case IndexByte line (CHR '':'') of
        None \<Rightarrow> ([], [], False)
      | Some idx \<Rightarrow>
          (let key = Trim (TrimSpace (take idx line)) [CHR 0x22, CHR 0x27];
               value = Trim (TrimSpace (drop (idx + 1) line)) [CHR 0x22, CHR 0x27]
           in (key, if value = ''{'' \<or> value = ''['' then [] else value, True)))"

text \<open>
  The variables of \<open>parseConfig\<close> that its loop changes; the variable \<open>section\<close> is
  \<open>sectionName\<close> here. \<open>featureEntry{}\<close>, the zero value, has no fields and line 0.
\<close>

record scanState =
  cfg :: parsedConfig
  sectionName :: string
  currentFeature :: featureEntry

definition zeroFeature :: featureEntry where
  "zeroFeature = \<lparr>Fields = Mapping.empty, EntryLine = 0\<rparr>"

definition appendFeature :: "scanState \<Rightarrow> scanState" where
  "appendFeature st =
     st\<lparr>cfg := (cfg st)\<lparr>Features := Features (cfg st) @ [currentFeature st]\<rparr>\<rparr>"

text \<open>
  The body of \<open>if strings.HasPrefix(clean, "-")\<close> and of \<open>if strings.HasPrefix(clean, "{")\<close>
  up to the new value of \<open>clean\<close>: the pending entry is appended when it has a field, and a
  new one starts at this line.
\<close>

definition beginFeature :: "scanState \<Rightarrow> int \<Rightarrow> scanState" where
  "beginFeature st lineNo =
     (if \<not> Mapping.is_empty (Fields (currentFeature st)) then appendFeature st else st)
       \<lparr>currentFeature := \<lparr>Fields = Mapping.empty, EntryLine = lineNo\<rparr>\<rparr>"

text \<open>The guarded append and reset at a closing brace.\<close>

definition closeFeature :: "scanState \<Rightarrow> scanState" where
  "closeFeature st =
     (if \<not> Mapping.is_empty (Fields (currentFeature st))
      then (appendFeature st)\<lparr>currentFeature := zeroFeature\<rparr>
      else st)"

text \<open>
  The loop body from \<open>parseKeyValue(clean)\<close> on. The two switches on the key, the first
  under \<open>section == ""\<close>, have the same cases; the labels with the quotes inside are kept
  as the source has them.
\<close>

definition isKey :: "string \<Rightarrow> string \<Rightarrow> bool" where
  "isKey key name = (key = name \<or> key = [CHR 0x22] @ name @ [CHR 0x22])"

definition sectionSwitch :: "scanState \<Rightarrow> int \<Rightarrow> string \<Rightarrow> scanState option" where
  "sectionSwitch st lineNo key =
     (if isKey key ''metadata''
      then Some (st\<lparr>sectionName := ''metadata'', cfg := (cfg st)\<lparr>MetadataLine := lineNo\<rparr>\<rparr>)
      else if isKey key ''settings''
      then Some (st\<lparr>sectionName := ''settings'', cfg := (cfg st)\<lparr>SettingsLine := lineNo\<rparr>\<rparr>)
      else if isKey key ''features''
      then Some (st\<lparr>sectionName := ''features'', cfg := (cfg st)\<lparr>FeaturesLine := lineNo\<rparr>\<rparr>)
      else None)"

definition storeField :: "scanState \<Rightarrow> int \<Rightarrow> string \<Rightarrow> string \<Rightarrow> bool \<Rightarrow> scanState" where
  "storeField st lineNo key value hasValue =
     (if sectionName st = ''metadata'' then
        (if hasValue
         then st\<lparr>cfg := (cfg st)\<lparr>Metadata :=
                Mapping.update key \<lparr>Value = value, FieldLine = lineNo\<rparr> (Metadata (cfg st))\<rparr>\<rparr>
         else st)
      else if sectionName st = ''settings'' then
        (if hasValue
         then st\<lparr>cfg := (cfg st)\<lparr>Settings :=
                Mapping.update key \<lparr>Value = value, FieldLine = lineNo\<rparr> (Settings (cfg st))\<rparr>\<rparr>
         else st)
      else if sectionName st = ''features'' then
        (if \<not> hasValue then st
         else
           (let cur = (if Mapping.is_empty (Fields (currentFeature st))
                       then \<lparr>Fields = Mapping.empty, EntryLine = lineNo\<rparr>
                       else currentFeature st)
            in st\<lparr>currentFeature :=
                 cur\<lparr>Fields :=
                   Mapping.update key \<lparr>Value = value, FieldLine = lineNo\<rparr> (Fields cur)\<rparr>\<rparr>))
      else st)"

definition keyValueLine :: "scanState \<Rightarrow> int \<Rightarrow> string \<Rightarrow> scanState" where
  "keyValueLine st lineNo clean =
     (case parseKeyValue clean of (key, value, hasValue) \<Rightarrow>
        if key = [] then st
        else
          (case (if sectionName st = [] then sectionSwitch st lineNo key else None) of
             Some st' \<Rightarrow> st'
           | None \<Rightarrow>
               (case sectionSwitch st lineNo key of
                  Some st' \<Rightarrow> st'
                | None \<Rightarrow> storeField st lineNo key value hasValue)))"

text \<open>The block \<open>if section == "features"\<close> before the key is parsed, and what follows it.\<close>

definition featureLine :: "scanState \<Rightarrow> int \<Rightarrow> string \<Rightarrow> scanState" where
  "featureLine st lineNo clean =
     (let dash = HasPrefix clean ''-'';
          st1 = (if dash then beginFeature st lineNo else st);
          clean1 = (if dash then TrimSpace (TrimPrefix clean ''-'') else clean)
      in if dash \<and> clean1 = [] then st1
         else
           (let brace = HasPrefix clean1 ''{'';
                st2 = (if brace then beginFeature st1 lineNo else st1);
                clean2 = (if brace then TrimSpace (TrimPrefix clean1 ''{'') else clean1)
            in if brace \<and> clean2 = [] then st2
               else if clean2 = ''}'' then closeFeature st2
               else keyValueLine st2 lineNo clean2))"

text \<open>One turn of the loop, for the line \<open>line\<close> with number \<open>lineNo\<close>.\<close>

definition step :: "scanState \<Rightarrow> int \<Rightarrow> string \<Rightarrow> scanState" where
  "step st lineNo line =
     (let trimmed = TrimSpace line
      in if trimmed = [] \<or> HasPrefix trimmed ''#'' then st
         else
           (let clean = TrimSpace (TrimSuffix trimmed '','')
            in if clean = ''{'' \<or> clean = ''}'' \<or> clean = ''['' \<or> clean = '']'' then
                 (if sectionName st = ''features'' \<and> clean = ''}''
                     \<and> \<not> Mapping.is_empty (Fields (currentFeature st))
                  then (appendFeature st)\<lparr>currentFeature := zeroFeature\<rparr>
                  else st)
               else if sectionName st = ''features'' then featureLine st lineNo clean
               else keyValueLine st lineNo clean))"

fun scanLoop :: "scanState \<Rightarrow> int \<Rightarrow> string list \<Rightarrow> scanState" where
  "scanLoop st lineNo [] = st"
| "scanLoop st lineNo (line # rest) = scanLoop (step st (lineNo + 1) line) (lineNo + 1) rest"

definition initialState :: scanState where
  "initialState =
     \<lparr>cfg = \<lparr>Metadata = Mapping.empty, MetadataLine = 0, Settings = Mapping.empty, SettingsLine = 0,
             Features = [], FeaturesLine = 0\<rparr>,
      sectionName = [], currentFeature = zeroFeature\<rparr>"

text \<open>
  \<open>parseConfig\<close> returns the configuration together with the scanner's error, as the
  source does.
\<close>

definition parseConfig :: "string \<Rightarrow> parsedConfig \<times> error option" where
  "parseConfig data =
     (case scanLines data of (lines, err) \<Rightarrow>
        (let st = scanLoop initialState 0 lines;
             st' = (if \<not> Mapping.is_empty (Fields (currentFeature st)) then appendFeature st else st)
         in (cfg st', err)))"

subsection \<open>The validators\<close>

definition isPositiveInt :: "string \<Rightarrow> bool" where
  "isPositiveInt value =
     (if value = [] then False
      else if Atoi value = None \<or> value = ''0'' then False
      else True)"

definition isBool :: "string \<Rightarrow> bool" where
  "isBool value = (let v = ToLower (TrimSpace value) in v = ''true'' \<or> v = ''false'')"

fun contains :: "string list \<Rightarrow> string \<Rightarrow> bool" where
  "contains [] value = False"
| "contains (v # list) value = (if v = value then True else contains list value)"

text \<open>
  \<open>v, ok := m[key]\<close>: the value and \<open>True\<close>, or the zero value of \<open>fieldInfo\<close> and \<open>False\<close>.
\<close>

definition lookupField :: "(string, fieldInfo) mapping \<Rightarrow> string \<Rightarrow> fieldInfo \<times> bool" where
  "lookupField m key =
     (case Mapping.lookup m key of None \<Rightarrow> (\<lparr>Value = [], FieldLine = 0\<rparr>, False) | Some fi \<Rightarrow> (fi, True))"

text \<open>
  Each validator takes the issues collected so far (the slice behind the pointer
  \<open>issues\<close>) and returns them with its own appended.
\<close>

definition validateMetadata :: "parsedConfig \<Rightarrow> Issue list \<Rightarrow> Issue list" where
  "validateMetadata c issues =
     (let baseLine = (if MetadataLine c = 0 then 1 else MetadataLine c)
      in if Mapping.is_empty (Metadata c) then
           issues @ [\<lparr>Line = baseLine, Severity = SeverityError,
                       Message = ''missing metadata section'',
                       SuggestedFix = ''Add a 'metadata' mapping with 'name' and 'env' fields''\<rparr>]
         else
           (let (name, hasName) = lookupField (Metadata c) ''name'';
                issues1 =
                  (if \<not> hasName \<or> Value name = [] then
                     issues @
                       [\<lparr>Line = (if FieldLine name = 0 then baseLine else FieldLine name),
                         Severity = SeverityError,
                         Message = ''metadata.name is required'',
                         SuggestedFix = ''Set metadata.name to a non-empty identifier, e.g. metadata.name: my-service''\<rparr>]
                   else issues);
                (env, hasEnv) = lookupField (Metadata c) ''env''
            in if \<not> hasEnv \<or> Value env = [] then
                 issues1 @
                   [\<lparr>Line = (if FieldLine env = 0 then baseLine else FieldLine env),
                     Severity = SeverityError,
                     Message = ''metadata.env is required'',
                     SuggestedFix =
                       ''Set metadata.env to one of: '' @ Join allowedEnvironments '', ''\<rparr>]
               else if \<not> contains allowedEnvironments (Value env) then
                 issues1 @
                   [\<lparr>Line = FieldLine env,
                     Severity = SeverityWarning,
                     Message = ''metadata.env value '' @ Quote (Value env) @ '' is not recognized'',
                     SuggestedFix = ''Use one of: '' @ Join allowedEnvironments '', ''\<rparr>]
               else issues1))"

definition validateSettings :: "parsedConfig \<Rightarrow> Issue list \<Rightarrow> Issue list" where
  "validateSettings c issues =
     (let baseLine = (if SettingsLine c = 0 then 1 else SettingsLine c)
      in if Mapping.is_empty (Settings c) then
           issues @ [\<lparr>Line = baseLine, Severity = SeverityError,
                       Message = ''missing settings section'',
                       SuggestedFix =
                         ''Add a 'settings' mapping with 'replicas' and 'timeout'' @ [CHR 0x27]\<rparr>]
         else
           (let (replicas, hasReplicas) = lookupField (Settings c) ''replicas'';
                issues1 =
                  (if \<not> hasReplicas then
                     issues @ [\<lparr>Line = baseLine, Severity = SeverityError,
                                 Message = ''settings.replicas is required'',
                                 SuggestedFix = ''Add settings.replicas: 1''\<rparr>]
                   else if \<not> isPositiveInt (Value replicas) then
                     issues @ [\<lparr>Line = FieldLine replicas, Severity = SeverityError,
                                 Message = ''settings.replicas must be a positive integer'',
                                 SuggestedFix = []\<rparr>]
                   else issues);
                (timeout, hasTimeout) = lookupField (Settings c) ''timeout''
            in if \<not> hasTimeout then
                 issues1 @ [\<lparr>Line = baseLine, Severity = SeverityWarning,
                              Message = ''settings.timeout is missing; defaulting to 30'',
                              SuggestedFix = ''Add settings.timeout: '' @ formatInt defaultTimeout\<rparr>]
               else if \<not> isPositiveInt (Value timeout) then
                 issues1 @ [\<lparr>Line = FieldLine timeout, Severity = SeverityWarning,
                              Message = ''settings.timeout should be a positive integer'',
                              SuggestedFix = []\<rparr>]
               else issues1))"

text \<open>The body of the loop of \<open>validateFeatures\<close>, for one entry.\<close>

definition validateFeature :: "featureEntry \<Rightarrow> Issue list \<Rightarrow> Issue list" where
  "validateFeature feature issues =
     (if Mapping.is_empty (Fields feature) then
        issues @ [\<lparr>Line = EntryLine feature, Severity = SeverityWarning,
                    Message = ''each feature entry should be a mapping'',
                    SuggestedFix = []\<rparr>]
      else
        (let (name, hasName) = lookupField (Fields feature) ''name'';
             issues1 =
               (if \<not> hasName \<or> Value name = [] then
                  issues @ [\<lparr>Line = EntryLine feature, Severity = SeverityWarning,
                              Message = ''feature entry missing name'',
                              SuggestedFix = ''Add name: <feature-name>''\<rparr>]
                else issues);
             (enabled, hasEnabled) = lookupField (Fields feature) ''enabled''
         in if \<not> hasEnabled \<or> \<not> isBool (Value enabled) then
              issues1 @ [\<lparr>Line = EntryLine feature, Severity = SeverityWarning,
                           Message = ''feature enabled should be true or false'',
                           SuggestedFix = []\<rparr>]
            else issues1))"

fun validateEntries :: "featureEntry list \<Rightarrow> Issue list \<Rightarrow> Issue list" where
  "validateEntries [] issues = issues"
| "validateEntries (feature # rest) issues = validateEntries rest (validateFeature feature issues)"

definition validateFeatures :: "parsedConfig \<Rightarrow> Issue list \<Rightarrow> Issue list" where
  "validateFeatures c issues = validateEntries (Features c) issues"

subsection \<open>LintBytes\<close>

definition LintBytes :: "string \<Rightarrow> error + Issue list" where
  "LintBytes data =
     (case parseConfig data of
        (c, Some err) \<Rightarrow> Inl err
      | (c, None) \<Rightarrow> Inr (validateFeatures c (validateSettings c (validateMetadata c []))))"

subsection \<open>The fatal determination of the callers\<close>

text \<open>
  \<open>lintOne\<close> (command line) after \<open>LintConfig\<close> has returned the issues: no issue gives
  \<open>false\<close> at once, otherwise the loop over the issues sets \<open>fatal\<close> and runs to the end.
\<close>

definition lintOne :: "bool \<Rightarrow> Issue list \<Rightarrow> bool" where
  "lintOne strict issues =
     (if issues = [] then False
      else foldl (\<lambda>fatal issue.
             if Severity issue = SeverityError \<or> (strict \<and> Severity issue = SeverityWarning)
             then True else fatal) False issues)"

text \<open>
  \<open>handleLint\<close> (HTTP server, and \<open>lintHandler\<close> of its earlier version, which has the
  same loop): the loop leaves at the first issue that makes the result fatal.
\<close>

fun handleLint :: "bool \<Rightarrow> Issue list \<Rightarrow> bool" where
  "handleLint strict [] = False"
| "handleLint strict (issue # rest) =
     (if Severity issue = SeverityError \<or> (strict \<and> Severity issue = SeverityWarning)
      then True else handleLint strict rest)"

subsection \<open>Section headers, as the loop recognises them\<close>

text \<open>
  A line is a section header when it reaches the switch on the key with one of the three
  section names. Whether it does depends on the line and on the current section only:
  \<open>headerOf\<close> follows the loop body up to that switch, without the state. \<open>featureRest\<close> is
  what the block \<open>if section == "features"\<close> leaves of the line for \<open>parseKeyValue\<close>, and
  \<open>None\<close> when the block ends the turn.
\<close>

definition featureRest :: "string \<Rightarrow> string option" where
  "featureRest clean =
     (let dash = HasPrefix clean ''-'';
          clean1 = (if dash then TrimSpace (TrimPrefix clean ''-'') else clean)
      in if dash \<and> clean1 = [] then None
         else
           (let brace = HasPrefix clean1 ''{'';
                clean2 = (if brace then TrimSpace (TrimPrefix clean1 ''{'') else clean1)
            in if brace \<and> clean2 = [] then None
               else if clean2 = ''}'' then None
               else Some clean2))"

definition keyHeader :: "string \<Rightarrow> string option" where
  "keyHeader key =
     (if key = [] then None
      else if isKey key ''metadata'' then Some ''metadata''
      else if isKey key ''settings'' then Some ''settings''
      else if isKey key ''features'' then Some ''features''
      else None)"

definition headerOf :: "string \<Rightarrow> string \<Rightarrow> string option" where
  "headerOf sec line =
     (let trimmed = TrimSpace line
      in if trimmed = [] \<or> HasPrefix trimmed ''#'' then None
         else
           (let clean = TrimSpace (TrimSuffix trimmed '','')
            in if clean = ''{'' \<or> clean = ''}'' \<or> clean = ''['' \<or> clean = '']'' then None
               else
                 (case (if sec = ''features'' then featureRest clean else Some clean) of
                    None \<Rightarrow> None
                  | Some rest \<Rightarrow> keyHeader (fst (parseKeyValue rest)))))"

text \<open>
  For each line of a pass that starts in section \<open>sec\<close>: the section it is a header of, if
  any. A header changes the section for the lines after it.
\<close>

fun headers :: "string \<Rightarrow> string list \<Rightarrow> string option list" where
  "headers sec [] = []"
| "headers sec (line # rest) =
     (case headerOf sec line of
        None \<Rightarrow> None # headers sec rest
      | Some k \<Rightarrow> Some k # headers k rest)"

text \<open>
  The numbers of the lines that are headers of section \<open>k\<close>, in increasing order; the first
  line of the list has number \<open>n + 1\<close>.
\<close>

fun headerLines :: "string \<Rightarrow> int \<Rightarrow> string option list \<Rightarrow> int list" where
  "headerLines k n [] = []"
| "headerLines k n (h # hs) = (if h = Some k then [n + 1] else []) @ headerLines k (n + 1) hs"

subsection \<open>What the proofs keep track of\<close>

text \<open>
  The invariant of the loop: a stored field has a line from 1 on, an appended entry has a
  field and a line from 1 on, and so has the pending entry once it has a field.
\<close>

definition linesOK :: "(string, fieldInfo) mapping \<Rightarrow> bool" where
  "linesOK m = (\<forall>k fi. Mapping.lookup m k = Some fi \<longrightarrow> 1 \<le> FieldLine fi)"

definition entryOK :: "featureEntry \<Rightarrow> bool" where
  "entryOK f = (\<not> Mapping.is_empty (Fields f) \<and> 1 \<le> EntryLine f)"

definition cfgOK :: "parsedConfig \<Rightarrow> bool" where
  "cfgOK c =
     (0 \<le> MetadataLine c \<and> 0 \<le> SettingsLine c \<and> linesOK (Metadata c) \<and> linesOK (Settings c)
      \<and> (\<forall>f\<in>set (Features c). entryOK f))"

definition stateOK :: "scanState \<Rightarrow> bool" where
  "stateOK st =
     (cfgOK (cfg st) \<and>
      (\<not> Mapping.is_empty (Fields (currentFeature st)) \<longrightarrow> 1 \<le> EntryLine (currentFeature st)))"

text \<open>
  The current section with the three recorded header lines, and what a header of section
  \<open>k\<close> at line \<open>n\<close> does to them.
\<close>

definition marks :: "scanState \<Rightarrow> string \<times> int \<times> int \<times> int" where
  "marks st = (sectionName st, MetadataLine (cfg st), SettingsLine (cfg st), FeaturesLine (cfg st))"

definition mark :: "string option \<Rightarrow> int \<Rightarrow> string \<times> int \<times> int \<times> int \<Rightarrow> string \<times> int \<times> int \<times> int" where
  "mark h n x =
     (case (h, x) of
        (None, _) \<Rightarrow> x
      | (Some k, (sec, m, s, f)) \<Rightarrow>
          (k, if k = ''metadata'' then n else m, if k = ''settings'' then n else s,
           if k = ''features'' then n else f))"

definition markLine :: "string \<Rightarrow> string \<times> int \<times> int \<times> int \<Rightarrow> int" where
  "markLine k x =
     (case x of (sec, m, s, f) \<Rightarrow>
        if k = ''metadata'' then m else if k = ''settings'' then s else f)"

text \<open>The field \<open>key\<close> is present in the mapping and its value satisfies \<open>P\<close>.\<close>

definition fieldSatisfies :: "(string, fieldInfo) mapping \<Rightarrow> string \<Rightarrow> (string \<Rightarrow> bool) \<Rightarrow> bool" where
  "fieldSatisfies m key P = (case Mapping.lookup m key of None \<Rightarrow> False | Some fi \<Rightarrow> P (Value fi))"

subsection \<open>Inputs used as examples\<close>

text \<open>The contents of the two tests of the package (scenarios A and B of the specification).\<close>

definition scenarioA :: string where
  "scenarioA =
     ''\<newline>metadata:\<newline>  env: unknown\<newline>settings:\<newline>  replicas: 0\<newline>  timeout: -5\<newline>features:\<newline>  - enabled: maybe\<newline>''"

definition scenarioB :: string where
  "scenarioB =
     ''\<newline>metadata:\<newline>  name: awesome\<newline>  env: prod\<newline>settings:\<newline>  replicas: 2\<newline>  timeout: 60\<newline>features:\<newline>  - name: featureA\<newline>    enabled: true\<newline>''"

text \<open>The three sections in the order features, settings, metadata.\<close>

definition reversedSections :: string where
  "reversedSections =
     ''features:\<newline>  - name: f\<newline>settings:\<newline>  timeout: 5\<newline>metadata:\<newline>  name: n\<newline>  env: dev\<newline>''"

text \<open>No metadata section at all, and a metadata header with nothing under it.\<close>

definition noMetadata :: string where
  "noMetadata = ''settings:\<newline>  replicas: 2\<newline>  timeout: 60\<newline>''"

definition headerOnly :: string where
  "headerOnly = ''settings:\<newline>  replicas: 2\<newline>  timeout: 60\<newline>metadata:\<newline>''"

text \<open>
  Feature entries that are opened and closed with no field: a dash and a closing brace,
  a dash with an opening brace and a closing brace, and both braces on one line.
\<close>

definition closedEmptyEntries :: string where
  "closedEmptyEntries =
     ''metadata:\<newline>  name: n\<newline>  env: dev\<newline>settings:\<newline>  replicas: 1\<newline>  timeout: 1\<newline>features:\<newline>  -\<newline>  }\<newline>  - {\<newline>  }\<newline>  {}\<newline>''"

definition emptyThenNamed :: string where
  "emptyThenNamed = ''features:\<newline>  - {\<newline>  }\<newline>  - name: a\<newline>''"

text \<open>One line of 65536 bytes.\<close>

definition longLine :: string where
  "longLine = replicate 65536 (CHR ''a'')"

text \<open>The headers of metadata and settings twice each.\<close>

definition repeatedHeaders :: string where
  "repeatedHeaders =
     ''metadata:\<newline>  name: a\<newline>settings:\<newline>  replicas: 1\<newline>metadata:\<newline>  env: dev\<newline>settings:\<newline>  timeout: 1\<newline>''"

text \<open>A negative number of replicas and a timeout written 00.\<close>

definition nonPositiveSettings :: string where
  "nonPositiveSettings =
     ''metadata:\<newline>  name: a\<newline>  env: dev\<newline>settings:\<newline>  replicas: -5\<newline>  timeout: 00\<newline>''"

text \<open>
  A first entry whose dash stands alone on line 2, its field on line 3, and a second
  entry whose dash and field are both on line 4.
\<close>

definition bareMarker :: string where
  "bareMarker = ''features:\<newline>  -\<newline>    name: a\<newline>  - name: b\<newline>''"

section \<open>Properties\<close>

subsection \<open>The fatal determination\<close>

lemma fatal_loop:
  "foldl (\<lambda>fatal issue. if P issue then True else fatal) b issues = (b \<or> (\<exists>i\<in>set issues. P i))"
  by (induction issues arbitrary: b) auto

lemma handleLint_exists:
  "handleLint strict issues =
     (\<exists>i\<in>set issues. Severity i = SeverityError \<or> (strict \<and> Severity i = SeverityWarning))"
  by (induction issues) auto

text \<open>
  C8: for every list of issues and every value of the strict flag, the fatal result of
  \<open>lintOne\<close> and that of \<open>handleLint\<close> are both: some issue has severity error, or strict
  is set and some issue has severity warn.
\<close>

theorem fatal_determination:
  "lintOne strict issues =
     ((\<exists>i\<in>set issues. Severity i = SeverityError) \<or>
      (strict \<and> (\<exists>i\<in>set issues. Severity i = SeverityWarning)))
   \<and> handleLint strict issues =
     ((\<exists>i\<in>set issues. Severity i = SeverityError) \<or>
      (strict \<and> (\<exists>i\<in>set issues. Severity i = SeverityWarning)))"
  unfolding lintOne_def handleLint_exists fatal_loop by auto

theorem fatal_determination_witness:
  "lintOne True [\<lparr>Line = 1, Severity = SeverityWarning, Message = ''m'', SuggestedFix = []\<rparr>]
   \<and> handleLint True [\<lparr>Line = 1, Severity = SeverityWarning, Message = ''m'', SuggestedFix = []\<rparr>]
   \<and> \<not> lintOne False [\<lparr>Line = 1, Severity = SeverityWarning, Message = ''m'', SuggestedFix = []\<rparr>]
   \<and> \<not> handleLint False [\<lparr>Line = 1, Severity = SeverityWarning, Message = ''m'', SuggestedFix = []\<rparr>]"
  using fatal_determination [of True "[\<lparr>Line = 1, Severity = SeverityWarning, Message = ''m'', SuggestedFix = []\<rparr>]"]
        fatal_determination [of False "[\<lparr>Line = 1, Severity = SeverityWarning, Message = ''m'', SuggestedFix = []\<rparr>]"]
  by (simp add: SeverityError_def SeverityWarning_def)

subsection \<open>The order of the issues\<close>

lemma validateMetadata_append: "validateMetadata c issues = issues @ validateMetadata c []"
proof -
  obtain name hasName where n: "lookupField (Metadata c) ''name'' = (name, hasName)"
    by (cases "lookupField (Metadata c) ''name''")
  obtain env hasEnv where e: "lookupField (Metadata c) ''env'' = (env, hasEnv)"
    by (cases "lookupField (Metadata c) ''env''")
  show ?thesis
    unfolding validateMetadata_def Let_def n e by simp
qed

lemma validateSettings_append: "validateSettings c issues = issues @ validateSettings c []"
proof -
  obtain r hasR where r: "lookupField (Settings c) ''replicas'' = (r, hasR)"
    by (cases "lookupField (Settings c) ''replicas''")
  obtain t hasT where t: "lookupField (Settings c) ''timeout'' = (t, hasT)"
    by (cases "lookupField (Settings c) ''timeout''")
  show ?thesis
    unfolding validateSettings_def Let_def r t by simp
qed

lemma validateFeature_append: "validateFeature f issues = issues @ validateFeature f []"
proof -
  obtain name hasName where n: "lookupField (Fields f) ''name'' = (name, hasName)"
    by (cases "lookupField (Fields f) ''name''")
  obtain en hasEn where e: "lookupField (Fields f) ''enabled'' = (en, hasEn)"
    by (cases "lookupField (Fields f) ''enabled''")
  show ?thesis
    unfolding validateFeature_def Let_def n e by simp
qed

lemma validateEntries_append: "validateEntries fs issues = issues @ validateEntries fs []"
proof (induction fs arbitrary: issues)
  case Nil
  show ?case by simp
next
  case (Cons f fs)
  have "validateEntries (f # fs) issues = validateEntries fs (issues @ validateFeature f [])"
    using validateFeature_append [of f issues] by simp
  also have "\<dots> = (issues @ validateFeature f []) @ validateEntries fs []"
    by (rule Cons.IH)
  also have "\<dots> = issues @ validateEntries fs (validateFeature f [])"
    using Cons.IH [of "validateFeature f []"] by simp
  finally show ?case by simp
qed

lemma validateFeatures_append: "validateFeatures c issues = issues @ validateFeatures c []"
  unfolding validateFeatures_def by (rule validateEntries_append)

lemma LintBytes_sections:
  assumes "parseConfig data = (c, None)"
  shows "LintBytes data =
           Inr (validateMetadata c [] @ validateSettings c [] @ validateFeatures c [])"
proof -
  have "LintBytes data = Inr (validateFeatures c (validateSettings c (validateMetadata c [])))"
    using assms by (simp add: LintBytes_def)
  also have "validateFeatures c (validateSettings c (validateMetadata c [])) =
               validateSettings c (validateMetadata c []) @ validateFeatures c []"
    by (rule validateFeatures_append)
  also have "validateSettings c (validateMetadata c []) =
               validateMetadata c [] @ validateSettings c []"
    by (rule validateSettings_append)
  finally show ?thesis by simp
qed

text \<open>
  C7: when the scan succeeds, the issues that \<open>LintBytes\<close> returns are those of the
  metadata validator, then those of the settings validator, then those of the features
  validator, each run on its own, in this order whatever their line numbers.
\<close>

theorem LintBytes_section_order:
  assumes "parseConfig data = (c, None)"
  shows "LintBytes data =
           Inr (validateMetadata c [] @ validateSettings c [] @ validateFeatures c [])"
proof -
  have "LintBytes data = Inr (validateFeatures c (validateSettings c (validateMetadata c [])))"
    using assms by (simp add: LintBytes_def)
  moreover have "validateFeatures c (validateSettings c (validateMetadata c [])) =
                   validateSettings c (validateMetadata c []) @ validateFeatures c []"
    by (rule validateFeatures_append)
  moreover have "validateSettings c (validateMetadata c []) =
                   validateMetadata c [] @ validateSettings c []"
    by (rule validateSettings_append)
  ultimately show ?thesis by simp
qed

theorem LintBytes_section_order_witness:
  "parseConfig reversedSections = (fst (parseConfig reversedSections), None)
   \<and> LintBytes reversedSections =
       Inr (validateMetadata (fst (parseConfig reversedSections)) [] @
            validateSettings (fst (parseConfig reversedSections)) [] @
            validateFeatures (fst (parseConfig reversedSections)) [])
   \<and> map Line (validateMetadata (fst (parseConfig reversedSections)) []) = []
   \<and> map Line (validateSettings (fst (parseConfig reversedSections)) []) = [3]
   \<and> map Line (validateFeatures (fst (parseConfig reversedSections)) []) = [2]"
proof -
  have h: "parseConfig reversedSections = (fst (parseConfig reversedSections), None)"
    by code_simp
  have m: "map Line (validateMetadata (fst (parseConfig reversedSections)) []) = []"
    by code_simp
  have s: "map Line (validateSettings (fst (parseConfig reversedSections)) []) = [3]"
    by code_simp
  have f: "map Line (validateFeatures (fst (parseConfig reversedSections)) []) = [2]"
    by code_simp
  show ?thesis using LintBytes_section_order [OF h] h m s f by simp
qed

subsection \<open>The invariant of the scan\<close>

lemma linesOK_update:
  "linesOK m \<Longrightarrow> 1 \<le> n \<Longrightarrow> linesOK (Mapping.update k \<lparr>Value = v, FieldLine = n\<rparr> m)"
  by (auto simp add: linesOK_def Mapping.lookup_update')

lemma linesOK_empty: "linesOK Mapping.empty"
  by (simp add: linesOK_def)

lemma beginFeature_ok: "stateOK st \<Longrightarrow> stateOK (beginFeature st n)"
  by (auto simp add: stateOK_def cfgOK_def entryOK_def beginFeature_def appendFeature_def)

lemma closeFeature_ok: "stateOK st \<Longrightarrow> stateOK (closeFeature st)"
  by (auto simp add: stateOK_def cfgOK_def entryOK_def closeFeature_def appendFeature_def
      zeroFeature_def)

lemma sectionSwitch_ok:
  "stateOK st \<Longrightarrow> 1 \<le> n \<Longrightarrow> sectionSwitch st n key = Some st' \<Longrightarrow> stateOK st'"
  by (auto simp add: stateOK_def cfgOK_def sectionSwitch_def split: if_splits)

lemma storeField_ok: "stateOK st \<Longrightarrow> 1 \<le> n \<Longrightarrow> stateOK (storeField st n key v h)"
  by (auto simp add: stateOK_def cfgOK_def storeField_def Let_def linesOK_update)

lemma keyValueLine_ok: "stateOK st \<Longrightarrow> 1 \<le> n \<Longrightarrow> stateOK (keyValueLine st n clean)"
  by (auto simp add: keyValueLine_def storeField_ok split: prod.splits option.splits if_splits
      dest: sectionSwitch_ok)

lemma featureLine_ok: "stateOK st \<Longrightarrow> 1 \<le> n \<Longrightarrow> stateOK (featureLine st n clean)"
  by (simp add: featureLine_def Let_def beginFeature_ok closeFeature_ok keyValueLine_ok)

lemma step_ok: "stateOK st \<Longrightarrow> 1 \<le> n \<Longrightarrow> stateOK (step st n line)"
proof -
  assume ok: "stateOK st" and n: "1 \<le> n"
  have c: "stateOK ((appendFeature st)\<lparr>currentFeature := zeroFeature\<rparr>)"
    if "\<not> Mapping.is_empty (Fields (currentFeature st))"
    using closeFeature_ok [OF ok] that by (simp add: closeFeature_def)
  show ?thesis
    unfolding step_def Let_def
    using ok n c by (simp add: featureLine_ok keyValueLine_ok)
qed

lemma scanLoop_ok: "stateOK st \<Longrightarrow> 0 \<le> n \<Longrightarrow> stateOK (scanLoop st n ls)"
proof (induction ls arbitrary: st n)
  case Nil
  then show ?case by simp
next
  case (Cons l ls)
  have "stateOK (step st (n + 1) l)"
    using Cons.prems by (intro step_ok) auto
  then show ?case
    using Cons.prems by (simp add: Cons.IH)
qed

lemma initialState_ok: "stateOK initialState"
  by (simp add: stateOK_def cfgOK_def initialState_def zeroFeature_def linesOK_empty)

lemma parseConfig_ok: "cfgOK (fst (parseConfig data))"
proof -
  obtain ls err where s: "scanLines data = (ls, err)"
    by (cases "scanLines data")
  have ok: "stateOK (scanLoop initialState 0 ls)"
    by (rule scanLoop_ok [OF initialState_ok]) simp
  have "stateOK (if \<not> Mapping.is_empty (Fields (currentFeature (scanLoop initialState 0 ls)))
                 then appendFeature (scanLoop initialState 0 ls)
                 else scanLoop initialState 0 ls)"
    using ok by (auto simp add: stateOK_def cfgOK_def entryOK_def appendFeature_def)
  then show ?thesis
    by (simp add: parseConfig_def s Let_def stateOK_def)
qed

subsection \<open>Lines of the issues\<close>

lemma is_empty_lookup: "Mapping.is_empty m \<Longrightarrow> Mapping.lookup m k = None"
  by (auto simp add: Mapping.is_empty_def keys_dom_lookup)

lemma contains_set: "contains list v = (v \<in> set list)"
  by (induction list) auto

lemma validateEntries_Cons:
  "validateEntries (f # fs) [] = validateFeature f [] @ validateEntries fs []"
  using validateEntries_append [of fs "validateFeature f []"] by simp

lemma lookupField_line:
  "linesOK m \<Longrightarrow> lookupField m key = (fi, has) \<Longrightarrow> FieldLine fi = 0 \<or> 1 \<le> FieldLine fi"
  by (auto simp add: lookupField_def linesOK_def split: option.splits)

lemma lookupField_has_line:
  "linesOK m \<Longrightarrow> lookupField m key = (fi, True) \<Longrightarrow> 1 \<le> FieldLine fi"
  by (auto simp add: lookupField_def linesOK_def split: option.splits)

lemma validateMetadata_lines:
  assumes "cfgOK c"
  shows "\<forall>i\<in>set (validateMetadata c []). 1 \<le> Line i"
proof -
  obtain name hasName where n: "lookupField (Metadata c) ''name'' = (name, hasName)"
    by (cases "lookupField (Metadata c) ''name''")
  obtain env hasEnv where e: "lookupField (Metadata c) ''env'' = (env, hasEnv)"
    by (cases "lookupField (Metadata c) ''env''")
  have l: "linesOK (Metadata c)" and b: "0 \<le> MetadataLine c"
    using assms by (simp_all add: cfgOK_def)
  have n1: "FieldLine name = 0 \<or> 1 \<le> FieldLine name"
    by (rule lookupField_line [OF l n])
  have e1: "FieldLine env = 0 \<or> 1 \<le> FieldLine env"
    by (rule lookupField_line [OF l e])
  have e2: "hasEnv \<Longrightarrow> 1 \<le> FieldLine env"
    using lookupField_has_line [OF l] e by simp
  show ?thesis
    unfolding validateMetadata_def Let_def n e
    using b n1 e1 e2 by auto
qed

lemma validateSettings_lines:
  assumes "cfgOK c"
  shows "\<forall>i\<in>set (validateSettings c []). 1 \<le> Line i"
proof -
  obtain r hasR where r: "lookupField (Settings c) ''replicas'' = (r, hasR)"
    by (cases "lookupField (Settings c) ''replicas''")
  obtain t hasT where t: "lookupField (Settings c) ''timeout'' = (t, hasT)"
    by (cases "lookupField (Settings c) ''timeout''")
  have l: "linesOK (Settings c)" and b: "0 \<le> SettingsLine c"
    using assms by (simp_all add: cfgOK_def)
  have r2: "hasR \<Longrightarrow> 1 \<le> FieldLine r"
    using lookupField_has_line [OF l] r by simp
  have t2: "hasT \<Longrightarrow> 1 \<le> FieldLine t"
    using lookupField_has_line [OF l] t by simp
  show ?thesis
    unfolding validateSettings_def Let_def r t
    using b r2 t2 by auto
qed

lemma validateFeature_lines:
  "\<forall>i\<in>set (validateFeature f []). Line i = EntryLine f"
proof -
  obtain name hasName where n: "lookupField (Fields f) ''name'' = (name, hasName)"
    by (cases "lookupField (Fields f) ''name''")
  obtain en hasEn where e: "lookupField (Fields f) ''enabled'' = (en, hasEn)"
    by (cases "lookupField (Fields f) ''enabled''")
  show ?thesis
    unfolding validateFeature_def Let_def n e by auto
qed

lemma validateEntries_lines:
  "\<forall>f\<in>set fs. 1 \<le> EntryLine f \<Longrightarrow> \<forall>i\<in>set (validateEntries fs []). 1 \<le> Line i"
proof (induction fs)
  case Nil
  show ?case by simp
next
  case (Cons f fs)
  then show ?case
    using validateFeature_lines [of f]
    by (auto simp del: validateEntries.simps simp add: validateEntries_Cons)
qed

text \<open>
  C10: every issue that \<open>LintBytes\<close> returns has a line from 1 on.
\<close>

theorem issue_lines_positive:
  assumes "LintBytes data = Inr issues"
  shows "\<forall>i\<in>set issues. 1 \<le> Line i"
proof -
  obtain c err where p: "parseConfig data = (c, err)"
    by (cases "parseConfig data")
  have none: "err = None"
    using assms p by (cases err) (simp_all add: LintBytes_def)
  have ok: "cfgOK c"
    using parseConfig_ok [of data] p by simp
  have "issues = validateMetadata c [] @ validateSettings c [] @ validateFeatures c []"
    using LintBytes_sections [of data c] p none assms by simp
  moreover have "\<forall>i\<in>set (validateFeatures c []). 1 \<le> Line i"
    unfolding validateFeatures_def
    using ok by (intro validateEntries_lines) (simp add: cfgOK_def entryOK_def)
  ultimately show ?thesis
    using validateMetadata_lines [OF ok] validateSettings_lines [OF ok] by auto
qed

theorem issue_lines_positive_witness:
  "LintBytes scenarioA = Inr (projr (LintBytes scenarioA))
   \<and> map Line (projr (LintBytes scenarioA)) = [2, 3, 5, 8, 8]
   \<and> list_all (\<lambda>i. 1 \<le> Line i) (projr (LintBytes scenarioA))"
proof -
  have h: "LintBytes scenarioA = Inr (projr (LintBytes scenarioA))"
    by code_simp
  have l: "map Line (projr (LintBytes scenarioA)) = [2, 3, 5, 8, 8]"
    by code_simp
  show ?thesis
    using issue_lines_positive [OF h] h l by (simp add: list_all_iff)
qed

subsection \<open>Messages of the issues\<close>

lemma validateSettings_messages:
  "\<forall>i\<in>set (validateSettings c []).
     Message i \<in> {''missing settings section'', ''settings.replicas is required'',
                  ''settings.replicas must be a positive integer'',
                  ''settings.timeout is missing; defaulting to 30'',
                  ''settings.timeout should be a positive integer''}"
proof -
  obtain r hasR where r: "lookupField (Settings c) ''replicas'' = (r, hasR)"
    by (cases "lookupField (Settings c) ''replicas''")
  obtain t hasT where t: "lookupField (Settings c) ''timeout'' = (t, hasT)"
    by (cases "lookupField (Settings c) ''timeout''")
  show ?thesis
    unfolding validateSettings_def Let_def r t by simp
qed

lemma validateFeature_messages:
  "\<forall>i\<in>set (validateFeature f []).
     Message i \<in> {''each feature entry should be a mapping'', ''feature entry missing name'',
                  ''feature enabled should be true or false''}"
proof -
  obtain name hasName where n: "lookupField (Fields f) ''name'' = (name, hasName)"
    by (cases "lookupField (Fields f) ''name''")
  obtain en hasEn where e: "lookupField (Fields f) ''enabled'' = (en, hasEn)"
    by (cases "lookupField (Fields f) ''enabled''")
  show ?thesis
    unfolding validateFeature_def Let_def n e by simp
qed

lemma validateEntries_messages:
  "\<forall>i\<in>set (validateEntries fs []).
     Message i \<in> {''each feature entry should be a mapping'', ''feature entry missing name'',
                  ''feature enabled should be true or false''}"
proof (induction fs)
  case Nil
  show ?case by simp
next
  case (Cons f fs)
  then show ?case
    using validateFeature_messages [of f]
    by (auto simp del: validateEntries.simps simp add: validateEntries_Cons)
qed

subsection \<open>Empty feature entries\<close>

lemma validateFeature_mapping:
  "\<not> Mapping.is_empty (Fields f) \<Longrightarrow>
   \<forall>i\<in>set (validateFeature f []). Message i \<noteq> ''each feature entry should be a mapping''"
proof -
  assume ne: "\<not> Mapping.is_empty (Fields f)"
  obtain name hasName where n: "lookupField (Fields f) ''name'' = (name, hasName)"
    by (cases "lookupField (Fields f) ''name''")
  obtain en hasEn where e: "lookupField (Fields f) ''enabled'' = (en, hasEn)"
    by (cases "lookupField (Fields f) ''enabled''")
  show ?thesis
    unfolding validateFeature_def Let_def n e using ne by simp
qed

lemma validateEntries_mapping:
  "\<forall>f\<in>set fs. \<not> Mapping.is_empty (Fields f) \<Longrightarrow>
   \<forall>i\<in>set (validateEntries fs []). Message i \<noteq> ''each feature entry should be a mapping''"
proof (induction fs)
  case Nil
  show ?case by simp
next
  case (Cons f fs)
  then show ?case
    using validateFeature_mapping [of f]
    by (auto simp del: validateEntries.simps simp add: validateEntries_Cons)
qed

lemma validateMetadata_messages:
  "\<forall>i\<in>set (validateMetadata c []). Message i \<noteq> ''each feature entry should be a mapping''"
proof -
  obtain name hasName where n: "lookupField (Metadata c) ''name'' = (name, hasName)"
    by (cases "lookupField (Metadata c) ''name''")
  obtain env hasEnv where e: "lookupField (Metadata c) ''env'' = (env, hasEnv)"
    by (cases "lookupField (Metadata c) ''env''")
  show ?thesis
    unfolding validateMetadata_def Let_def n e by simp
qed

text \<open>
  Every append of \<open>parseConfig\<close> is under the test \<open>len(currentFeature.Fields) > 0\<close>, which
  does not tell an entry that was opened and has no field from no entry at all. So no entry
  of the features sequence has an empty field mapping, whether the pending entry was left
  open or closed by a closing brace, and the check of \<open>validateFeatures\<close> for such an entry
  finds none: no issue that \<open>LintBytes\<close> returns has its message.
\<close>

lemma empty_entry_never_appended:
  "(\<forall>f\<in>set (Features (fst (parseConfig data))). \<not> Mapping.is_empty (Fields f))
   \<and> (\<forall>issues. LintBytes data = Inr issues \<longrightarrow>
         (\<forall>i\<in>set issues. Message i \<noteq> ''each feature entry should be a mapping''))"
proof -
  obtain c err where p: "parseConfig data = (c, err)"
    by (cases "parseConfig data")
  have ok: "cfgOK c"
    using parseConfig_ok [of data] p by simp
  then have ne: "\<forall>f\<in>set (Features c). \<not> Mapping.is_empty (Fields f)"
    by (simp add: cfgOK_def entryOK_def)
  have "\<forall>i\<in>set issues. Message i \<noteq> ''each feature entry should be a mapping''"
    if l: "LintBytes data = Inr issues" for issues
  proof -
    have none: "err = None"
      using l p by (cases err) (simp_all add: LintBytes_def)
    have "issues = validateMetadata c [] @ validateSettings c [] @ validateFeatures c []"
      using LintBytes_sections [of data c] p none l by simp
    moreover have "\<forall>i\<in>set (validateFeatures c []).
                     Message i \<noteq> ''each feature entry should be a mapping''"
      unfolding validateFeatures_def by (rule validateEntries_mapping [OF ne])
    ultimately show ?thesis
      using validateMetadata_messages [of c] validateSettings_messages [of c] by auto
  qed
  then show ?thesis
    using ne p by simp
qed

lemma empty_entry_never_appended_example:
  "map (\<lambda>f. (EntryLine f, Mapping.is_empty (Fields f))) (Features (fst (parseConfig emptyThenNamed)))
     = [(4, False)]
   \<and> LintBytes emptyThenNamed = Inr (projr (LintBytes emptyThenNamed))
   \<and> map Message (projr (LintBytes emptyThenNamed)) =
       [''missing metadata section'', ''missing settings section'',
        ''feature enabled should be true or false'']"
proof -
  have a: "map (\<lambda>f. (EntryLine f, Mapping.is_empty (Fields f)))
             (Features (fst (parseConfig emptyThenNamed))) = [(4, False)]"
    by code_simp
  have b: "LintBytes emptyThenNamed = Inr (projr (LintBytes emptyThenNamed))"
    by code_simp
  have c: "map Message (projr (LintBytes emptyThenNamed)) =
       [''missing metadata section'', ''missing settings section'',
        ''feature enabled should be true or false'']"
    by code_simp
  show ?thesis
    using empty_entry_never_appended [of emptyThenNamed] a b c by simp
qed

text \<open>
  C4: the claim is that an empty entry that is closed by a closing brace gives the warning
  "each feature entry should be a mapping". \<open>validateFeatures\<close> has the check and the
  message for an entry without fields, but the parser drops the three entries of this input
  that are opened and closed with no field in between: the features sequence is empty and,
  metadata and settings being valid, the result has no issue at all.
\<close>

theorem closed_empty_entry_no_warning:
  "Features (fst (parseConfig closedEmptyEntries)) = []
   \<and> LintBytes closedEmptyEntries = Inr []"
  by code_simp

subsection \<open>A valid configuration\<close>

lemma lookupField_satisfies:
  "fieldSatisfies m key P \<Longrightarrow> \<exists>fi. lookupField m key = (fi, True) \<and> P (Value fi)"
  by (auto simp add: fieldSatisfies_def lookupField_def split: option.splits)

lemma satisfies_not_empty: "fieldSatisfies m key P \<Longrightarrow> \<not> Mapping.is_empty m"
  using is_empty_lookup [of m key] by (auto simp add: fieldSatisfies_def)

lemma validateFeature_valid:
  assumes "fieldSatisfies (Fields f) ''name'' (\<lambda>v. v \<noteq> [])"
    and "fieldSatisfies (Fields f) ''enabled'' isBool"
  shows "validateFeature f [] = []"
proof -
  obtain name where n: "lookupField (Fields f) ''name'' = (name, True)" "Value name \<noteq> []"
    using lookupField_satisfies [OF assms(1)] by auto
  obtain en where e: "lookupField (Fields f) ''enabled'' = (en, True)" "isBool (Value en)"
    using lookupField_satisfies [OF assms(2)] by auto
  show ?thesis
    unfolding validateFeature_def Let_def n(1) e(1)
    using n(2) e(2) satisfies_not_empty [OF assms(1)] by simp
qed

text \<open>
  C2: when the parsed configuration has a non-empty metadata.name, a metadata.env among
  dev, staging and prod, settings.replicas and settings.timeout that pass \<open>isPositiveInt\<close>,
  and in every feature entry a non-empty name and an enabled value that passes \<open>isBool\<close>
  (true or false, in any case), \<open>LintBytes\<close> returns no issue. Scenario B is such an input.
\<close>

theorem valid_config_no_issues:
  assumes "parseConfig data = (c, None)"
    and "fieldSatisfies (Metadata c) ''name'' (\<lambda>v. v \<noteq> [])"
    and "fieldSatisfies (Metadata c) ''env'' (\<lambda>v. v \<in> {''dev'', ''staging'', ''prod''})"
    and "fieldSatisfies (Settings c) ''replicas'' isPositiveInt"
    and "fieldSatisfies (Settings c) ''timeout'' isPositiveInt"
    and "\<forall>f\<in>set (Features c).
           fieldSatisfies (Fields f) ''name'' (\<lambda>v. v \<noteq> [])
           \<and> fieldSatisfies (Fields f) ''enabled'' isBool"
  shows "LintBytes data = Inr []"
proof -
  have m: "validateMetadata c [] = []"
  proof -
    obtain name where n: "lookupField (Metadata c) ''name'' = (name, True)" "Value name \<noteq> []"
      using lookupField_satisfies [OF assms(2)] by auto
    obtain env where e: "lookupField (Metadata c) ''env'' = (env, True)"
        "Value env \<in> {''dev'', ''staging'', ''prod''}"
      using lookupField_satisfies [OF assms(3)] by auto
    have "contains allowedEnvironments (Value env)" "Value env \<noteq> []"
      using e(2) by (auto simp add: contains_set allowedEnvironments_def)
    then show ?thesis
      unfolding validateMetadata_def Let_def n(1) e(1)
      using n(2) satisfies_not_empty [OF assms(2)] by simp
  qed
  have s: "validateSettings c [] = []"
  proof -
    obtain r where r: "lookupField (Settings c) ''replicas'' = (r, True)" "isPositiveInt (Value r)"
      using lookupField_satisfies [OF assms(4)] by auto
    obtain t where t: "lookupField (Settings c) ''timeout'' = (t, True)" "isPositiveInt (Value t)"
      using lookupField_satisfies [OF assms(5)] by auto
    show ?thesis
      unfolding validateSettings_def Let_def r(1) t(1)
      using r(2) t(2) satisfies_not_empty [OF assms(4)] by simp
  qed
  have "validateEntries fs [] = []"
    if "\<forall>f\<in>set fs. fieldSatisfies (Fields f) ''name'' (\<lambda>v. v \<noteq> [])
                     \<and> fieldSatisfies (Fields f) ''enabled'' isBool" for fs
    using that
  proof (induction fs)
    case Nil
    show ?case by simp
  next
    case (Cons f fs)
    then show ?case
      by (simp del: validateEntries.simps add: validateEntries_Cons validateFeature_valid)
  qed
  then have f: "validateFeatures c [] = []"
    using assms(6) by (simp add: validateFeatures_def)
  show ?thesis
    using LintBytes_sections [OF assms(1)] m s f by simp
qed

theorem valid_config_no_issues_witness:
  "parseConfig scenarioB = (fst (parseConfig scenarioB), None)
   \<and> fieldSatisfies (Metadata (fst (parseConfig scenarioB))) ''name'' (\<lambda>v. v = ''awesome'')
   \<and> fieldSatisfies (Metadata (fst (parseConfig scenarioB))) ''env'' (\<lambda>v. v = ''prod'')
   \<and> fieldSatisfies (Settings (fst (parseConfig scenarioB))) ''replicas'' (\<lambda>v. v = ''2'')
   \<and> fieldSatisfies (Settings (fst (parseConfig scenarioB))) ''timeout'' (\<lambda>v. v = ''60'')
   \<and> length (Features (fst (parseConfig scenarioB))) = 1
   \<and> LintBytes scenarioB = Inr []"
proof -
  have h: "parseConfig scenarioB = (fst (parseConfig scenarioB), None)"
    by code_simp
  have n: "fieldSatisfies (Metadata (fst (parseConfig scenarioB))) ''name'' (\<lambda>v. v \<noteq> [])"
    by code_simp
  have e: "fieldSatisfies (Metadata (fst (parseConfig scenarioB))) ''env''
             (\<lambda>v. v \<in> {''dev'', ''staging'', ''prod''})"
    by code_simp
  have r: "fieldSatisfies (Settings (fst (parseConfig scenarioB))) ''replicas'' isPositiveInt"
    by code_simp
  have t: "fieldSatisfies (Settings (fst (parseConfig scenarioB))) ''timeout'' isPositiveInt"
    by code_simp
  have f: "list_all (\<lambda>f. fieldSatisfies (Fields f) ''name'' (\<lambda>v. v \<noteq> [])
                        \<and> fieldSatisfies (Fields f) ''enabled'' isBool)
             (Features (fst (parseConfig scenarioB)))"
    by code_simp
  have f': "\<forall>f\<in>set (Features (fst (parseConfig scenarioB))).
              fieldSatisfies (Fields f) ''name'' (\<lambda>v. v \<noteq> [])
              \<and> fieldSatisfies (Fields f) ''enabled'' isBool"
    using f by (simp add: list_all_iff)
  have n2: "fieldSatisfies (Metadata (fst (parseConfig scenarioB))) ''name'' (\<lambda>v. v = ''awesome'')"
    by code_simp
  have e2: "fieldSatisfies (Metadata (fst (parseConfig scenarioB))) ''env'' (\<lambda>v. v = ''prod'')"
    by code_simp
  have r2: "fieldSatisfies (Settings (fst (parseConfig scenarioB))) ''replicas'' (\<lambda>v. v = ''2'')"
    by code_simp
  have t2: "fieldSatisfies (Settings (fst (parseConfig scenarioB))) ''timeout'' (\<lambda>v. v = ''60'')"
    by code_simp
  have l: "length (Features (fst (parseConfig scenarioB))) = 1"
    by code_simp
  show ?thesis
    using valid_config_no_issues [OF h n e r t f'] h n2 e2 r2 t2 l by simp
qed

subsection \<open>The recorded header lines\<close>

lemma marks_appendFeature: "marks (appendFeature st) = marks st"
  by (simp add: marks_def appendFeature_def)

lemma marks_currentFeature: "marks (st\<lparr>currentFeature := f\<rparr>) = marks st"
  by (simp add: marks_def)

lemma marks_beginFeature: "marks (beginFeature st n) = marks st"
  by (simp add: beginFeature_def marks_appendFeature marks_currentFeature)

lemma marks_closeFeature: "marks (closeFeature st) = marks st"
  by (simp add: closeFeature_def marks_appendFeature marks_currentFeature)

lemma marks_storeField: "marks (storeField st n key v h) = marks st"
  by (simp add: storeField_def marks_def Let_def)

lemma sectionSwitch_keyHeader:
  "key \<noteq> [] \<Longrightarrow>
   (case sectionSwitch st n key of None \<Rightarrow> marks st | Some st' \<Rightarrow> marks st') =
     mark (keyHeader key) n (marks st)"
  by (simp add: sectionSwitch_def keyHeader_def mark_def marks_def)

lemma sectionSwitch_None: "sectionSwitch st n key = None \<Longrightarrow> key \<noteq> [] \<Longrightarrow> keyHeader key = None"
  by (simp add: sectionSwitch_def keyHeader_def split: if_splits)

lemma marks_keyValueLine:
  "marks (keyValueLine st n clean) = mark (keyHeader (fst (parseKeyValue clean))) n (marks st)"
proof -
  obtain key v h where p: "parseKeyValue clean = (key, v, h)"
    by (cases "parseKeyValue clean")
  show ?thesis
  proof (cases "key = []")
    case True
    then show ?thesis
      by (simp add: keyValueLine_def p keyHeader_def mark_def)
  next
    case False
    show ?thesis
    proof (cases "sectionSwitch st n key")
      case None
      then show ?thesis
        using False sectionSwitch_None [OF None False]
        by (simp add: keyValueLine_def p marks_storeField mark_def)
    next
      case (Some st')
      then show ?thesis
        using False sectionSwitch_keyHeader [OF False, of st n]
        by (simp add: keyValueLine_def p)
    qed
  qed
qed

lemma marks_featureLine:
  "marks (featureLine st n clean) =
     (case featureRest clean of
        None \<Rightarrow> marks st
      | Some rest \<Rightarrow> mark (keyHeader (fst (parseKeyValue rest))) n (marks st))"
proof -
  define dash where "dash = HasPrefix clean ''-''"
  define st1 where "st1 = (if dash then beginFeature st n else st)"
  define clean1 where "clean1 = (if dash then TrimSpace (TrimPrefix clean ''-'') else clean)"
  define brace where "brace = HasPrefix clean1 ''{''"
  define st2 where "st2 = (if brace then beginFeature st1 n else st1)"
  define clean2 where "clean2 = (if brace then TrimSpace (TrimPrefix clean1 ''{'') else clean1)"
  have m1: "marks st1 = marks st"
    by (simp add: st1_def marks_beginFeature)
  have m2: "marks st2 = marks st"
    by (simp add: st2_def marks_beginFeature m1)
  have f: "featureLine st n clean =
             (if dash \<and> clean1 = [] then st1
              else if brace \<and> clean2 = [] then st2
              else if clean2 = ''}'' then closeFeature st2
              else keyValueLine st2 n clean2)"
    by (simp only: featureLine_def Let_def dash_def st1_def clean1_def brace_def st2_def
        clean2_def)
  have r: "featureRest clean =
             (if dash \<and> clean1 = [] then None
              else if brace \<and> clean2 = [] then None
              else if clean2 = ''}'' then None
              else Some clean2)"
    by (simp only: featureRest_def Let_def dash_def clean1_def brace_def clean2_def)
  show ?thesis
    unfolding f r by (simp add: m1 m2 marks_closeFeature marks_keyValueLine)
qed

lemma marks_step: "marks (step st n line) = mark (headerOf (sectionName st) line) n (marks st)"
proof -
  define trimmed where "trimmed = TrimSpace line"
  define clean where "clean = TrimSpace (TrimSuffix trimmed '','')"
  define skip where "skip = (trimmed = [] \<or> HasPrefix trimmed ''#'')"
  define struct where "struct = (clean = ''{'' \<or> clean = ''}'' \<or> clean = ''['' \<or> clean = '']'')"
  have f: "step st n line =
             (if skip then st
              else if struct then
                (if sectionName st = ''features'' \<and> clean = ''}''
                    \<and> \<not> Mapping.is_empty (Fields (currentFeature st))
                 then (appendFeature st)\<lparr>currentFeature := zeroFeature\<rparr>
                 else st)
              else if sectionName st = ''features'' then featureLine st n clean
              else keyValueLine st n clean)"
    by (simp only: step_def Let_def trimmed_def clean_def skip_def struct_def)
  have r: "headerOf (sectionName st) line =
             (if skip then None
              else if struct then None
              else (case (if sectionName st = ''features'' then featureRest clean else Some clean) of
                      None \<Rightarrow> None
                    | Some rest \<Rightarrow> keyHeader (fst (parseKeyValue rest))))"
    by (simp only: headerOf_def Let_def trimmed_def clean_def skip_def struct_def)
  have n: "mark None n (marks st) = marks st"
    by (simp add: mark_def)
  show ?thesis
    unfolding f r
    by (cases "featureRest clean")
       (simp_all add: n marks_featureLine marks_keyValueLine marks_appendFeature
          marks_currentFeature)
qed

lemma keyHeader_range:
  "keyHeader key = None \<or> keyHeader key = Some ''metadata'' \<or> keyHeader key = Some ''settings''
   \<or> keyHeader key = Some ''features''"
  by (simp add: keyHeader_def)

lemma headerOf_range:
  "headerOf sec line = None \<or> headerOf sec line = Some ''metadata''
   \<or> headerOf sec line = Some ''settings'' \<or> headerOf sec line = Some ''features''"
proof -
  define trimmed where "trimmed = TrimSpace line"
  define clean where "clean = TrimSpace (TrimSuffix trimmed '','')"
  define skip where "skip = (trimmed = [] \<or> HasPrefix trimmed ''#'')"
  define struct where "struct = (clean = ''{'' \<or> clean = ''}'' \<or> clean = ''['' \<or> clean = '']'')"
  define rest where "rest = (if sec = ''features'' then featureRest clean else Some clean)"
  have r: "headerOf sec line =
             (if skip then None
              else if struct then None
              else (case rest of None \<Rightarrow> None | Some r \<Rightarrow> keyHeader (fst (parseKeyValue r))))"
    by (simp only: headerOf_def Let_def trimmed_def clean_def skip_def struct_def rest_def)
  show ?thesis
  proof (cases rest)
    case None
    then show ?thesis unfolding r by simp
  next
    case (Some x)
    then show ?thesis
      unfolding r using keyHeader_range [of "fst (parseKeyValue x)"] by auto
  qed
qed

lemma names_distinct:
  "''metadata'' \<noteq> ''settings''" "''metadata'' \<noteq> ''features''" "''settings'' \<noteq> ''features''"
  "''settings'' \<noteq> ''metadata''" "''features'' \<noteq> ''metadata''" "''features'' \<noteq> ''settings''"
  by simp_all

lemma markLine_mark:
  assumes "k = ''metadata'' \<or> k = ''settings'' \<or> k = ''features''"
    and "h = None \<or> h = Some ''metadata'' \<or> h = Some ''settings'' \<or> h = Some ''features''"
  shows "markLine k (mark h n x) = (if h = Some k then n else markLine k x)"
proof (cases x)
  case (fields sec m s f)
  show ?thesis
  proof (cases h)
    case None
    then show ?thesis by (simp add: mark_def)
  next
    case (Some k')
    then have k': "k' = ''metadata'' \<or> k' = ''settings'' \<or> k' = ''features''"
      using assms(2) by simp
    show ?thesis
      using assms(1) k'
      by (elim disjE)
         (simp_all only: Some fields mark_def markLine_def prod.case option.case names_distinct
            if_True if_False option.inject refl)
  qed
qed

lemma sectionName_step:
  "sectionName (step st n line) =
     (case headerOf (sectionName st) line of None \<Rightarrow> sectionName st | Some k \<Rightarrow> k)"
  using marks_step [of st n line]
  by (simp add: marks_def mark_def split: option.splits)

lemma scanLoop_line:
  assumes "k = ''metadata'' \<or> k = ''settings'' \<or> k = ''features''"
  shows "markLine k (marks (scanLoop st n ls)) =
           last (markLine k (marks st) # headerLines k n (headers (sectionName st) ls))"
proof (induction ls arbitrary: st n)
  case Nil
  show ?case by simp
next
  case (Cons l ls)
  define h where "h = headerOf (sectionName st) l"
  define st' where "st' = step st (n + 1) l"
  have sec: "sectionName st' = (case h of None \<Rightarrow> sectionName st | Some k \<Rightarrow> k)"
    unfolding st'_def h_def by (rule sectionName_step)
  have hs: "headers (sectionName st) (l # ls) = h # headers (sectionName st') ls"
    using sec by (simp add: h_def split: option.splits)
  have m: "markLine k (marks st') = (if h = Some k then n + 1 else markLine k (marks st))"
    unfolding st'_def h_def marks_step
    by (rule markLine_mark [OF assms headerOf_range])
  have "markLine k (marks (scanLoop st n (l # ls))) = markLine k (marks (scanLoop st' (n + 1) ls))"
    by (simp add: st'_def)
  also have "\<dots> = last (markLine k (marks st') # headerLines k (n + 1) (headers (sectionName st') ls))"
    by (rule Cons.IH)
  also have "\<dots> = last (markLine k (marks st) # headerLines k n (headers (sectionName st) (l # ls)))"
    unfolding hs using m by simp
  finally show ?case .
qed

lemma parseConfig_marks:
  "marks (scanLoop initialState 0 (fst (scanLines data))) =
     (sectionName (scanLoop initialState 0 (fst (scanLines data))),
      MetadataLine (fst (parseConfig data)), SettingsLine (fst (parseConfig data)),
      FeaturesLine (fst (parseConfig data)))"
  by (cases "scanLines data") (simp add: parseConfig_def Let_def marks_def appendFeature_def)

text \<open>
  C5, as amended: after the pass, each of \<open>MetadataLine\<close>, \<open>SettingsLine\<close> and
  \<open>FeaturesLine\<close> is the number of the last line that is a header of its section, and 0
  when no line is: every header overwrites the recorded line.
\<close>

theorem section_line_is_last_header:
  "MetadataLine (fst (parseConfig data)) =
     last (0 # headerLines ''metadata'' 0 (headers [] (fst (scanLines data))))
   \<and> SettingsLine (fst (parseConfig data)) =
     last (0 # headerLines ''settings'' 0 (headers [] (fst (scanLines data))))
   \<and> FeaturesLine (fst (parseConfig data)) =
     last (0 # headerLines ''features'' 0 (headers [] (fst (scanLines data))))"
proof -
  have i: "marks initialState = ([], 0, 0, 0)"
    by (simp add: marks_def initialState_def)
  have s: "sectionName initialState = []"
    by (simp add: initialState_def)
  show ?thesis
    using scanLoop_line [of "''metadata''" initialState 0 "fst (scanLines data)"]
      scanLoop_line [of "''settings''" initialState 0 "fst (scanLines data)"]
      scanLoop_line [of "''features''" initialState 0 "fst (scanLines data)"]
    unfolding parseConfig_marks i s
    by (simp add: markLine_def)
qed

theorem section_line_is_last_header_witness:
  "headers [] (fst (scanLines repeatedHeaders)) =
     [Some ''metadata'', None, Some ''settings'', None, Some ''metadata'', None,
      Some ''settings'', None]
   \<and> headerLines ''metadata'' 0 (headers [] (fst (scanLines repeatedHeaders))) = [1, 5]
   \<and> headerLines ''settings'' 0 (headers [] (fst (scanLines repeatedHeaders))) = [3, 7]
   \<and> headerLines ''features'' 0 (headers [] (fst (scanLines repeatedHeaders))) = []
   \<and> MetadataLine (fst (parseConfig repeatedHeaders)) = 5
   \<and> SettingsLine (fst (parseConfig repeatedHeaders)) = 7
   \<and> FeaturesLine (fst (parseConfig repeatedHeaders)) = 0"
proof -
  have h: "headers [] (fst (scanLines repeatedHeaders)) =
     [Some ''metadata'', None, Some ''settings'', None, Some ''metadata'', None,
      Some ''settings'', None]"
    by code_simp
  have m: "headerLines ''metadata'' 0 (headers [] (fst (scanLines repeatedHeaders))) = [1, 5]"
    unfolding h by simp
  have s: "headerLines ''settings'' 0 (headers [] (fst (scanLines repeatedHeaders))) = [3, 7]"
    unfolding h by simp
  have f: "headerLines ''features'' 0 (headers [] (fst (scanLines repeatedHeaders))) = []"
    unfolding h by simp
  show ?thesis
    using section_line_is_last_header [of repeatedHeaders] h m s f by simp
qed

text \<open>
  C5 as stated fails: with the metadata header on lines 1 and 5 and the settings header on
  lines 3 and 7, the recorded lines are 5 and 7, not 1 and 3.
\<close>

theorem repeated_header_counterexample:
  "MetadataLine (fst (parseConfig repeatedHeaders)) = 5
   \<and> SettingsLine (fst (parseConfig repeatedHeaders)) = 7"
  by code_simp

subsection \<open>A missing metadata section\<close>

lemma sectionName_beginFeature: "sectionName (beginFeature st n) = sectionName st"
  using marks_beginFeature [of st n] by (simp add: marks_def)

lemma Metadata_beginFeature: "Metadata (cfg (beginFeature st n)) = Metadata (cfg st)"
  by (simp add: beginFeature_def appendFeature_def)

lemma Metadata_closeFeature: "Metadata (cfg (closeFeature st)) = Metadata (cfg st)"
  by (simp add: closeFeature_def appendFeature_def)

lemma Metadata_sectionSwitch:
  "sectionSwitch st n key = Some st' \<Longrightarrow> Metadata (cfg st') = Metadata (cfg st)"
  by (auto simp add: sectionSwitch_def split: if_splits)

lemma Metadata_storeField:
  "sectionName st \<noteq> ''metadata'' \<Longrightarrow>
   Metadata (cfg (storeField st n key v h)) = Metadata (cfg st)"
  by (simp add: storeField_def Let_def)

lemma Metadata_keyValueLine:
  assumes "sectionName st \<noteq> ''metadata''"
  shows "Metadata (cfg (keyValueLine st n clean)) = Metadata (cfg st)"
proof -
  obtain key v h where p: "parseKeyValue clean = (key, v, h)"
    by (cases "parseKeyValue clean")
  show ?thesis
  proof (cases "sectionSwitch st n key")
    case None
    then show ?thesis
      by (simp add: keyValueLine_def p Metadata_storeField [OF assms])
  next
    case (Some st')
    then show ?thesis
      using Metadata_sectionSwitch [OF Some]
      by (simp add: keyValueLine_def p)
  qed
qed

lemma Metadata_featureLine:
  assumes "sectionName st \<noteq> ''metadata''"
  shows "Metadata (cfg (featureLine st n clean)) = Metadata (cfg st)"
proof -
  define dash where "dash = HasPrefix clean ''-''"
  define st1 where "st1 = (if dash then beginFeature st n else st)"
  define clean1 where "clean1 = (if dash then TrimSpace (TrimPrefix clean ''-'') else clean)"
  define brace where "brace = HasPrefix clean1 ''{''"
  define st2 where "st2 = (if brace then beginFeature st1 n else st1)"
  define clean2 where "clean2 = (if brace then TrimSpace (TrimPrefix clean1 ''{'') else clean1)"
  have m1: "Metadata (cfg st1) = Metadata (cfg st)" "sectionName st1 = sectionName st"
    by (simp_all add: st1_def Metadata_beginFeature sectionName_beginFeature)
  have m2: "Metadata (cfg st2) = Metadata (cfg st)" "sectionName st2 \<noteq> ''metadata''"
    using assms by (simp_all add: st2_def Metadata_beginFeature sectionName_beginFeature m1)
  have f: "featureLine st n clean =
             (if dash \<and> clean1 = [] then st1
              else if brace \<and> clean2 = [] then st2
              else if clean2 = ''}'' then closeFeature st2
              else keyValueLine st2 n clean2)"
    by (simp only: featureLine_def Let_def dash_def st1_def clean1_def brace_def st2_def
        clean2_def)
  show ?thesis
    unfolding f by (simp add: m1 m2 Metadata_closeFeature Metadata_keyValueLine)
qed

lemma Metadata_step:
  assumes "sectionName st \<noteq> ''metadata''"
  shows "Metadata (cfg (step st n line)) = Metadata (cfg st)"
proof -
  define trimmed where "trimmed = TrimSpace line"
  define clean where "clean = TrimSpace (TrimSuffix trimmed '','')"
  define skip where "skip = (trimmed = [] \<or> HasPrefix trimmed ''#'')"
  define struct where "struct = (clean = ''{'' \<or> clean = ''}'' \<or> clean = ''['' \<or> clean = '']'')"
  have f: "step st n line =
             (if skip then st
              else if struct then
                (if sectionName st = ''features'' \<and> clean = ''}''
                    \<and> \<not> Mapping.is_empty (Fields (currentFeature st))
                 then (appendFeature st)\<lparr>currentFeature := zeroFeature\<rparr>
                 else st)
              else if sectionName st = ''features'' then featureLine st n clean
              else keyValueLine st n clean)"
    by (simp only: step_def Let_def trimmed_def clean_def skip_def struct_def)
  show ?thesis
    unfolding f
    by (simp add: Metadata_featureLine [OF assms] Metadata_keyValueLine [OF assms]
        appendFeature_def)
qed

lemma scanLoop_no_metadata:
  "sectionName st \<noteq> ''metadata'' \<Longrightarrow>
   Some ''metadata'' \<notin> set (headers (sectionName st) ls) \<Longrightarrow>
   Metadata (cfg (scanLoop st n ls)) = Metadata (cfg st)"
proof (induction ls arbitrary: st n)
  case Nil
  show ?case by simp
next
  case (Cons l ls)
  define st' where "st' = step st (n + 1) l"
  have sec: "sectionName st' =
               (case headerOf (sectionName st) l of None \<Rightarrow> sectionName st | Some k \<Rightarrow> k)"
    unfolding st'_def by (rule sectionName_step)
  have h: "headerOf (sectionName st) l \<noteq> Some ''metadata''"
    using Cons.prems(2) by (auto split: option.splits)
  have s': "sectionName st' \<noteq> ''metadata''"
    using sec h Cons.prems(1) by (auto split: option.splits)
  have r: "Some ''metadata'' \<notin> set (headers (sectionName st') ls)"
    using Cons.prems(2) sec by (auto split: option.splits)
  have "Metadata (cfg (scanLoop st' (n + 1) ls)) = Metadata (cfg st')"
    by (rule Cons.IH [OF s' r])
  also have "\<dots> = Metadata (cfg st)"
    unfolding st'_def by (rule Metadata_step [OF Cons.prems(1)])
  finally show ?case
    by (simp add: st'_def)
qed

lemma headerLines_none: "Some k \<notin> set hs \<Longrightarrow> headerLines k n hs = []"
  by (induction hs arbitrary: n) auto

lemma no_metadata_header:
  assumes "Some ''metadata'' \<notin> set (headers [] (fst (scanLines data)))"
  shows "Mapping.is_empty (Metadata (fst (parseConfig data)))
         \<and> MetadataLine (fst (parseConfig data)) = 0"
proof -
  have i: "sectionName initialState = []" "Metadata (cfg initialState) = Mapping.empty"
    by (simp_all add: initialState_def zeroFeature_def)
  have "Metadata (cfg (scanLoop initialState 0 (fst (scanLines data)))) = Mapping.empty"
    using scanLoop_no_metadata [of initialState "fst (scanLines data)" 0] assms i by simp
  then have m: "Metadata (fst (parseConfig data)) = Mapping.empty"
    by (cases "scanLines data") (simp add: parseConfig_def Let_def appendFeature_def)
  have mk: "marks initialState = ([], 0, 0, 0)"
    by (simp add: marks_def initialState_def)
  have "MetadataLine (fst (parseConfig data)) = 0"
    using scanLoop_line [of "''metadata''" initialState 0 "fst (scanLines data)"]
      headerLines_none [OF assms [unfolded i(1) [symmetric]], of 0]
    unfolding parseConfig_marks mk
    by (simp add: markLine_def i)
  then show ?thesis
    using m by simp
qed

lemma validateMetadata_empty:
  "Mapping.is_empty (Metadata c) \<Longrightarrow>
   validateMetadata c [] =
     [\<lparr>Line = (if MetadataLine c = 0 then 1 else MetadataLine c), Severity = SeverityError,
       Message = ''missing metadata section'',
       SuggestedFix = ''Add a 'metadata' mapping with 'name' and 'env' fields''\<rparr>]"
  by (simp add: validateMetadata_def)

text \<open>
  C3: when the scan succeeds and the parsed metadata mapping is empty, the result starts
  with the one issue of
  the metadata validator, the error "missing metadata section" at \<open>MetadataLine\<close>, or at
  line 1 when that is 0, and the issues after it, which are those of the settings and
  features validators, are no metadata issue (none has this message or one that starts
  with "metadata."). An input with no metadata header on any line is such an input, and
  its \<open>MetadataLine\<close> is 0.
\<close>

theorem missing_metadata_section:
  assumes "parseConfig data = (c, None)"
  shows "(Mapping.is_empty (Metadata c) \<longrightarrow>
            LintBytes data =
              Inr (\<lparr>Line = (if MetadataLine c = 0 then 1 else MetadataLine c),
                    Severity = SeverityError, Message = ''missing metadata section'',
                    SuggestedFix = ''Add a 'metadata' mapping with 'name' and 'env' fields''\<rparr>
                   # validateSettings c [] @ validateFeatures c [])
            \<and> (\<forall>i\<in>set (validateSettings c [] @ validateFeatures c []).
                  Message i \<noteq> ''missing metadata section''
                  \<and> \<not> HasPrefix (Message i) ''metadata.''))
         \<and> (Some ''metadata'' \<notin> set (headers [] (fst (scanLines data))) \<longrightarrow>
              Mapping.is_empty (Metadata c) \<and> MetadataLine c = 0)"
proof -
  have s: "\<forall>i\<in>set (validateSettings c []).
          Message i \<noteq> ''missing metadata section'' \<and> \<not> HasPrefix (Message i) ''metadata.''"
    using validateSettings_messages [of c] by (auto simp add: HasPrefix_def)
  have f: "\<forall>i\<in>set (validateFeatures c []).
          Message i \<noteq> ''missing metadata section'' \<and> \<not> HasPrefix (Message i) ''metadata.''"
    unfolding validateFeatures_def
    using validateEntries_messages [of "Features c"] by (auto simp add: HasPrefix_def)
  have "LintBytes data =
          Inr (\<lparr>Line = (if MetadataLine c = 0 then 1 else MetadataLine c),
                Severity = SeverityError, Message = ''missing metadata section'',
                SuggestedFix = ''Add a 'metadata' mapping with 'name' and 'env' fields''\<rparr>
               # validateSettings c [] @ validateFeatures c [])"
    if e: "Mapping.is_empty (Metadata c)"
    using LintBytes_sections [OF assms] validateMetadata_empty [OF e] by simp
  moreover have "Mapping.is_empty (Metadata c) \<and> MetadataLine c = 0"
    if h: "Some ''metadata'' \<notin> set (headers [] (fst (scanLines data)))"
    using no_metadata_header [OF h] assms by simp
  ultimately show ?thesis
    using s f by auto
qed

theorem missing_metadata_section_witness:
  "parseConfig noMetadata = (fst (parseConfig noMetadata), None)
   \<and> Some ''metadata'' \<notin> set (headers [] (fst (scanLines noMetadata)))
   \<and> LintBytes noMetadata =
       Inr [\<lparr>Line = 1, Severity = SeverityError, Message = ''missing metadata section'',
             SuggestedFix = ''Add a 'metadata' mapping with 'name' and 'env' fields''\<rparr>]
   \<and> parseConfig headerOnly = (fst (parseConfig headerOnly), None)
   \<and> Mapping.is_empty (Metadata (fst (parseConfig headerOnly)))
   \<and> LintBytes headerOnly =
       Inr [\<lparr>Line = 4, Severity = SeverityError, Message = ''missing metadata section'',
             SuggestedFix = ''Add a 'metadata' mapping with 'name' and 'env' fields''\<rparr>]"
proof -
  have h1: "parseConfig noMetadata = (fst (parseConfig noMetadata), None)"
    by code_simp
  have n1: "Some ''metadata'' \<notin> set (headers [] (fst (scanLines noMetadata)))"
    by code_simp
  have s1: "validateSettings (fst (parseConfig noMetadata)) [] = []"
    by code_simp
  have f1: "validateFeatures (fst (parseConfig noMetadata)) [] = []"
    by code_simp
  have h2: "parseConfig headerOnly = (fst (parseConfig headerOnly), None)"
    by code_simp
  have e2: "Mapping.is_empty (Metadata (fst (parseConfig headerOnly)))"
    by code_simp
  have l2: "MetadataLine (fst (parseConfig headerOnly)) = 4"
    by code_simp
  have s2: "validateSettings (fst (parseConfig headerOnly)) [] = []"
    by code_simp
  have f2: "validateFeatures (fst (parseConfig headerOnly)) [] = []"
    by code_simp
  show ?thesis
    using missing_metadata_section [OF h1] missing_metadata_section [OF h2]
      h1 n1 s1 f1 h2 e2 l2 s2 f2
    by simp
qed

subsection \<open>The only error\<close>

lemma len_length: "len xs = int (length xs)"
  by (induction xs) auto

lemma splitLines_single:
  "CHR 0x0A \<notin> set s \<Longrightarrow> splitLines cur s = (if rev cur @ s = [] then [] else [rev cur @ s])"
  by (induction s arbitrary: cur) auto

lemma takeWhile_shorter:
  "length (takeWhile P xs) < length xs \<longleftrightarrow> (\<exists>x\<in>set xs. \<not> P x)"
  by (induction xs) auto

lemma scanLines_err:
  "snd (scanLines data) =
     (if \<exists>l\<in>set (splitLines [] data). \<not> len l < MaxScanTokenSize then Some ErrTooLong else None)"
  by (simp add: scanLines_def Let_def takeWhile_shorter)

lemma parseConfig_err: "snd (parseConfig data) = snd (scanLines data)"
  by (simp add: parseConfig_def Let_def split: prod.splits)

lemma LintBytes_err:
  "LintBytes data =
     (case snd (scanLines data) of
        Some err \<Rightarrow> Inl err
      | None \<Rightarrow> Inr (validateFeatures (fst (parseConfig data))
                 (validateSettings (fst (parseConfig data))
                   (validateMetadata (fst (parseConfig data)) []))))"
  using parseConfig_err [of data]
  by (cases "parseConfig data") (auto simp add: LintBytes_def split: option.splits)

lemma longLine_lines: "splitLines [] longLine = [longLine]"
proof -
  have "CHR 0x0A \<notin> set longLine"
    by (simp add: longLine_def)
  moreover have "longLine \<noteq> []"
    by (simp add: longLine_def)
  ultimately show ?thesis
    by (simp add: splitLines_single)
qed

lemma longLine_len: "len longLine = 65536"
  by (simp add: len_length longLine_def)

text \<open>
  C9, as amended: when every line of the input (each piece between line feeds) is shorter
  than 65536 bytes, \<open>LintBytes\<close> returns a sequence of issues and no error; when some line
  has 65536 bytes or more, the scanner stops with \<open>ErrTooLong\<close> and \<open>LintBytes\<close> returns
  this error and no issues.
\<close>

theorem LintBytes_error_iff_long_line:
  "((\<forall>l\<in>set (splitLines [] data). len l < MaxScanTokenSize) \<longrightarrow>
      (\<exists>issues. LintBytes data = Inr issues))
   \<and> ((\<exists>l\<in>set (splitLines [] data). MaxScanTokenSize \<le> len l) \<longrightarrow>
      LintBytes data = Inl ErrTooLong)"
proof -
  have "\<exists>issues. LintBytes data = Inr issues"
    if "\<forall>l\<in>set (splitLines [] data). len l < MaxScanTokenSize"
    using that by (simp add: LintBytes_err scanLines_err)
  moreover have "LintBytes data = Inl ErrTooLong"
    if l: "\<exists>l\<in>set (splitLines [] data). MaxScanTokenSize \<le> len l"
  proof -
    have "\<exists>l\<in>set (splitLines [] data). \<not> len l < MaxScanTokenSize"
      using l by (auto simp add: not_less)
    then show ?thesis
      by (simp add: LintBytes_err scanLines_err)
  qed
  ultimately show ?thesis by blast
qed

theorem LintBytes_error_iff_long_line_witness:
  "list_all (\<lambda>l. len l < MaxScanTokenSize) (splitLines [] scenarioB)
   \<and> LintBytes scenarioB = Inr []
   \<and> (\<exists>l\<in>set (splitLines [] longLine). MaxScanTokenSize \<le> len l)
   \<and> LintBytes longLine = Inl ErrTooLong"
proof -
  have a: "list_all (\<lambda>l. len l < MaxScanTokenSize) (splitLines [] scenarioB)"
    by code_simp
  have b: "LintBytes scenarioB = Inr []"
    by code_simp
  have c: "\<exists>l\<in>set (splitLines [] longLine). MaxScanTokenSize \<le> len l"
    by (simp add: longLine_lines longLine_len MaxScanTokenSize_def)
  show ?thesis
    using LintBytes_error_iff_long_line [of scenarioB] LintBytes_error_iff_long_line [of longLine]
      a b c
    by (simp add: list_all_iff)
qed

text \<open>
  C9 as stated fails: the input that is one line of 65536 bytes is in memory, and
  \<open>LintBytes\<close> returns an error for it.
\<close>

theorem long_line_counterexample: "LintBytes longLine = Inl ErrTooLong"
  by (simp add: LintBytes_err scanLines_err longLine_lines longLine_len MaxScanTokenSize_def)

subsection \<open>Where the code departs from its own intent\<close>

text \<open>
  C1: the claim is that the test passes exactly for the texts that parse to an integer
  above zero. \<open>isPositiveInt\<close> rejects a text that does not parse and the text "0" only:
  "-5" parses to -5 and "00" to 0, both pass, and a configuration with these values for
  replicas and timeout has no issue.
\<close>

theorem isPositiveInt_accepts_nonpositive:
  "Atoi ''-5'' = Some (- 5) \<and> isPositiveInt ''-5''
   \<and> Atoi ''00'' = Some 0 \<and> isPositiveInt ''00''
   \<and> LintBytes nonPositiveSettings = Inr []"
  by code_simp

text \<open>
  C6: the claim is that an entry's line is the line of its marker. The entry that starts
  with a dash alone on line 2 gets line 3, the line of its first field: the store of that
  field finds the pending entry without fields and starts it again. The entry whose dash
  and field share line 4 gets line 4.
\<close>

theorem bare_marker_entry_line:
  "map EntryLine (Features (fst (parseConfig bareMarker))) = [3, 4]"
  by code_simp

end
